theory Spec2Isabelle
  imports Main
begin

section \<open>Data model\<close>

text \<open>
  A product is the dictionary held in \<open>PRODUCTS_DB\<close> and the \<open>Product\<close> model built from
  it: the keys \<open>id\<close>, \<open>name\<close> and \<open>price\<close>. The program only stores, copies and serialises
  a price and never computes with it, so the float type is the parameter \<open>'f\<close>.
\<close>

record 'f Product =
  id_field :: int
  name :: string
  price :: "'f"

text \<open>\<open>ProductUpdate\<close>: both fields default to \<open>None\<close>.\<close>

record 'f ProductUpdate =
  upd_name :: "string option"
  upd_price :: "'f option"

text \<open>
  The exceptions of the program: the \<open>HTTPException\<close> it raises itself, any error of
  the Redis client, and any error of \<open>json.loads\<close> or of the validation in
  \<open>Product(**data)\<close>.
\<close>

datatype exn = HTTPException nat | RedisError | ValueError

text \<open>
  What the program does to its two collaborators, in order: the accesses to
  \<open>PRODUCTS_DB\<close> and the commands sent to Redis.
\<close>

datatype io = DbRead int | DbWrite int | Ping | Get string | Set string string nat | Delete string

text \<open>
  The state: the dictionary \<open>PRODUCTS_DB\<close>, the global \<open>redis\<close> (\<open>True\<close> when it holds a
  client, \<open>False\<close> when it is \<open>None\<close>), the keys of the Redis server, each with its payload
  and the expiry in seconds it was set with, and the accesses made so far.
\<close>

record 'f state =
  PRODUCTS_DB :: "int \<rightharpoonup> 'f Product"
  redis :: bool
  entries :: "string \<rightharpoonup> string \<times> nat"
  trace :: "io list"

text \<open>
  The Redis backend may fail at any command. A command that writes may fail before the
  server applied it or after.
\<close>

datatype outcome = Succeeds | Fails | FailsApplied

record faults =
  ping_raises :: bool
  get_raises :: bool
  set_outcome :: outcome
  delete_outcome :: outcome

definition CACHE_TTL :: nat where
  "CACHE_TTL = 60"

section \<open>Decimal rendering of an integer\<close>

text \<open>Python's \<open>str\<close> of an \<open>int\<close>, as the f-string of \<open>_product_cache_key\<close> applies it.\<close>

definition digit_char :: "nat \<Rightarrow> char" where
  "digit_char d = char_of (48 + d)"

fun digits :: "nat \<Rightarrow> string" where
  "digits n = (if n < 10 then [digit_char n] else digits (n div 10) @ [digit_char (n mod 10)])"

declare digits.simps [simp del]

definition str_int :: "int \<Rightarrow> string" where
  "str_int i = (if i < 0 then CHR ''-'' # digits (nat (- i)) else digits (nat i))"

text \<open>Reading a decimal numeral back, used to state that \<open>str_int\<close> loses nothing.\<close>

definition digit_val :: "char \<Rightarrow> nat" where
  "digit_val c = of_char c - 48"

definition nat_of_digits :: "string \<Rightarrow> nat" where
  "nat_of_digits cs = foldl (\<lambda>acc c. 10 * acc + digit_val c) 0 cs"

definition int_of_str :: "string \<Rightarrow> int" where
  "int_of_str cs =
     (case cs of
        [] \<Rightarrow> 0
      | c # rest \<Rightarrow> if c = CHR ''-'' then - int (nat_of_digits rest) else int (nat_of_digits cs))"

section \<open>The Redis client\<close>

text \<open>
  The commands of the client the program calls. Each returns its result or the exception
  it raised, and the state after it.
\<close>

definition redis_ping :: "faults \<Rightarrow> 'f state \<Rightarrow> (exn + unit) \<times> 'f state" where
  "redis_ping f s =
     (if ping_raises f then Inl RedisError else Inr (), s\<lparr>trace := trace s @ [Ping]\<rparr>)"

definition redis_get :: "faults \<Rightarrow> string \<Rightarrow> 'f state \<Rightarrow> (exn + string option) \<times> 'f state" where
  "redis_get f key s =
     (if get_raises f then Inl RedisError else Inr (map_option fst (entries s key)),
      s\<lparr>trace := trace s @ [Get key]\<rparr>)"

definition redis_set ::
  "faults \<Rightarrow> string \<Rightarrow> string \<Rightarrow> nat \<Rightarrow> 'f state \<Rightarrow> (exn + unit) \<times> 'f state" where
  "redis_set f key v ex s =
     (let s' = s\<lparr>trace := trace s @ [Set key v ex]\<rparr>
      in case set_outcome f of
           Succeeds \<Rightarrow> (Inr (), s'\<lparr>entries := (entries s')(key \<mapsto> (v, ex))\<rparr>)
         | Fails \<Rightarrow> (Inl RedisError, s')
         | FailsApplied \<Rightarrow> (Inl RedisError, s'\<lparr>entries := (entries s')(key \<mapsto> (v, ex))\<rparr>))"

definition redis_delete :: "faults \<Rightarrow> string \<Rightarrow> 'f state \<Rightarrow> (exn + unit) \<times> 'f state" where
  "redis_delete f key s =
     (let s' = s\<lparr>trace := trace s @ [Delete key]\<rparr>
      in case delete_outcome f of
           Succeeds \<Rightarrow> (Inr (), s'\<lparr>entries := (entries s')(key := None)\<rparr>)
         | Fails \<Rightarrow> (Inl RedisError, s')
         | FailsApplied \<Rightarrow> (Inl RedisError, s'\<lparr>entries := (entries s')(key := None)\<rparr>))"

section \<open>The program\<close>

text \<open>
  \<open>on_startup\<close>: \<open>from_url\<close> and the first \<open>ping\<close> are inside one \<open>try\<close>; any exception
  leaves \<open>redis\<close> at \<open>None\<close>.
\<close>

definition on_startup :: "bool \<Rightarrow> faults \<Rightarrow> 'f state \<Rightarrow> 'f state" where
  "on_startup from_url_raises f s =
     (if from_url_raises then s\<lparr>redis := False\<rparr>
      else case redis_ping f (s\<lparr>redis := True\<rparr>) of
             (Inr _, s') \<Rightarrow> s'
           | (Inl _, s') \<Rightarrow> s'\<lparr>redis := False\<rparr>)"

definition get_product_from_db :: "int \<Rightarrow> 'f state \<Rightarrow> 'f Product option \<times> 'f state" where
  "get_product_from_db product_id s =
     (PRODUCTS_DB s product_id, s\<lparr>trace := trace s @ [DbRead product_id]\<rparr>)"

definition product_cache_key :: "int \<Rightarrow> string" where
  "product_cache_key product_id = ''product:'' @ str_int product_id"

text \<open>\<open>get_redis_connection\<close>: \<open>True\<close> stands for the client, \<open>False\<close> for \<open>None\<close>.\<close>

definition get_redis_connection :: "faults \<Rightarrow> 'f state \<Rightarrow> bool \<times> 'f state" where
  "get_redis_connection f s =
     (if redis s then
        (case redis_ping f s of
           (Inr _, s') \<Rightarrow> (True, s')
         | (Inl _, s') \<Rightarrow> (False, s'))
      else (False, s))"

text \<open>
  The first half of \<open>get_product\<close>, "try to get from cache": \<open>Some\<close> the product it
  returns, or \<open>None\<close> when control falls through to the database. \<open>loads\<close> is
  \<open>json.loads\<close> followed by \<open>Product(**data)\<close>; both are inside the \<open>try\<close>, as is
  \<open>get\<close>, and the handler is \<open>pass\<close>. An empty payload is falsy.
\<close>

definition try_cache ::
  "(string \<Rightarrow> exn + 'f Product) \<Rightarrow> faults \<Rightarrow> bool \<Rightarrow> string \<Rightarrow> 'f state
     \<Rightarrow> 'f Product option \<times> 'f state" where
  "try_cache loads f redis_conn cache_key s =
     (if redis_conn then
        (case redis_get f cache_key s of
           (Inl _, s') \<Rightarrow> (None, s')
         | (Inr cached, s') \<Rightarrow>
             (case cached of
                None \<Rightarrow> (None, s')
              | Some c \<Rightarrow>
                  if c \<noteq> [] then
                    (case loads c of
                       Inr data \<Rightarrow> (Some data, s')
                     | Inl _ \<Rightarrow> (None, s'))
                  else (None, s')))
      else (None, s))"

text \<open>
  \<open>get_product\<close>. \<open>dumps\<close> is \<open>json.dumps\<close> on a product's dictionary; the \<open>set\<close> is
  inside a \<open>try\<close> whose handler is \<open>pass\<close>, so its exception is dropped. A dictionary
  of the store always has its three keys, so \<open>not prod\<close> holds only for \<open>None\<close>, and
  \<open>Product(**prod)\<close> is the record itself.
\<close>

definition get_product ::
  "('f Product \<Rightarrow> string) \<Rightarrow> (string \<Rightarrow> exn + 'f Product) \<Rightarrow> faults \<Rightarrow> int \<Rightarrow> 'f state
     \<Rightarrow> (exn + 'f Product) \<times> 'f state" where
  "get_product dumps loads f product_id s =
     (let cache_key = product_cache_key product_id;
          (redis_conn, s1) = get_redis_connection f s
      in case try_cache loads f redis_conn cache_key s1 of
           (Some data, s2) \<Rightarrow> (Inr data, s2)
         | (None, s2) \<Rightarrow>
             (case get_product_from_db product_id s2 of
                (None, s3) \<Rightarrow> (Inl (HTTPException 404), s3)
              | (Some prod_row, s3) \<Rightarrow>
                  (Inr prod_row,
                   if redis_conn then snd (redis_set f cache_key (dumps prod_row) CACHE_TTL s3)
                   else s3)))"

text \<open>
  \<open>update_product\<close>. \<open>background_tasks\<close> is the list of the product ids whose
  \<open>invalidate_cache\<close> is scheduled; \<open>add_task\<close> appends to it. The two tests are
  \<open>is not None\<close>, so an empty name or a zero price is a provided field.
\<close>

definition update_product ::
  "int \<Rightarrow> 'f ProductUpdate \<Rightarrow> int list \<Rightarrow> 'f state
     \<Rightarrow> (exn + 'f Product) \<times> int list \<times> 'f state" where
  "update_product product_id update background_tasks s =
     (case get_product_from_db product_id s of
        (None, s1) \<Rightarrow> (Inl (HTTPException 404), background_tasks, s1)
      | (Some existing, s1) \<Rightarrow>
          (let updated = existing;
               updated = (case upd_name update of
                            Some n \<Rightarrow> updated\<lparr>name := n\<rparr>
                          | None \<Rightarrow> updated);
               updated = (case upd_price update of
                            Some p \<Rightarrow> updated\<lparr>price := p\<rparr>
                          | None \<Rightarrow> updated);
               s2 = s1\<lparr>PRODUCTS_DB := (PRODUCTS_DB s1)(product_id \<mapsto> updated),
                       trace := trace s1 @ [DbWrite product_id]\<rparr>
           in (Inr updated, background_tasks @ [product_id], s2)))"

text \<open>\<open>invalidate_cache\<close>: the \<open>delete\<close> is inside a \<open>try\<close> whose handler is \<open>pass\<close>.\<close>

definition invalidate_cache :: "faults \<Rightarrow> int \<Rightarrow> 'f state \<Rightarrow> 'f state" where
  "invalidate_cache f product_id s =
     (let (redis_conn, s1) = get_redis_connection f s
      in if redis_conn then snd (redis_delete f (product_cache_key product_id) s1) else s1)"

section \<open>Sequences of calls\<close>

text \<open>
  The service between requests: the state and the queue of scheduled invalidations. A
  request is a \<open>get_product\<close> or an \<open>update_product\<close>; between requests a scheduled
  \<open>invalidate_cache\<close> may run, and Redis may drop a key whose expiry has passed. Each
  call meets the faults given with it.
\<close>

datatype 'f event =
    Fetch faults int
  | Update int "'f ProductUpdate"
  | RunTask faults
  | Expire string

fun step ::
  "('f Product \<Rightarrow> string) \<Rightarrow> (string \<Rightarrow> exn + 'f Product) \<Rightarrow> 'f event
     \<Rightarrow> 'f state \<times> int list \<Rightarrow> 'f state \<times> int list" where
  "step dumps loads (Fetch f product_id) (s, q) = (snd (get_product dumps loads f product_id s), q)"
| "step dumps loads (Update product_id update) (s, q) =
     (case update_product product_id update q s of (_, q', s') \<Rightarrow> (s', q'))"
| "step dumps loads (RunTask f) (s, q) =
     (case q of [] \<Rightarrow> (s, q) | product_id # q' \<Rightarrow> (invalidate_cache f product_id s, q'))"
| "step dumps loads (Expire key) (s, q) = (s\<lparr>entries := (entries s)(key := None)\<rparr>, q)"

definition run ::
  "('f Product \<Rightarrow> string) \<Rightarrow> (string \<Rightarrow> exn + 'f Product) \<Rightarrow> 'f event list
     \<Rightarrow> 'f state \<times> int list \<Rightarrow> 'f state \<times> int list" where
  "run dumps loads es c = foldl (\<lambda>c e. step dumps loads e c) c es"

section \<open>A concrete instance\<close>

text \<open>
  The closed instances below need a serialisation that can be evaluated. \<open>row_dumps\<close>
  and \<open>row_loads\<close> stand in for \<open>json.dumps\<close> and for \<open>json.loads\<close> with
  \<open>Product(**data)\<close>, on products whose price is an integer: the id, the price and the
  name, separated by commas.
\<close>

definition row_dumps :: "int Product \<Rightarrow> string" where
  "row_dumps p = str_int (id_field p) @ '','' @ str_int (price p) @ '','' @ name p"

definition row_loads :: "string \<Rightarrow> exn + int Product" where
  "row_loads cs =
     (case dropWhile (\<lambda>c. c \<noteq> CHR '','') cs of
        [] \<Rightarrow> Inl ValueError
      | _ # rest \<Rightarrow>
          (case dropWhile (\<lambda>c. c \<noteq> CHR '','') rest of
             [] \<Rightarrow> Inl ValueError
           | _ # nm \<Rightarrow>
               Inr \<lparr>id_field = int_of_str (takeWhile (\<lambda>c. c \<noteq> CHR '','') cs),
                    name = nm,
                    price = int_of_str (takeWhile (\<lambda>c. c \<noteq> CHR '','') rest)\<rparr>))"

text \<open>The three products \<open>PRODUCTS_DB\<close> starts with, a connected client, an empty Redis.\<close>

definition initial_state :: "int state" where
  "initial_state =
     \<lparr>PRODUCTS_DB =
        [1 \<mapsto> \<lparr>id_field = 1, name = ''Laptop'', price = 1000\<rparr>,
         2 \<mapsto> \<lparr>id_field = 2, name = ''Smartphone'', price = 500\<rparr>,
         3 \<mapsto> \<lparr>id_field = 3, name = ''Headphones'', price = 100\<rparr>],
      redis = True,
      entries = Map.empty,
      trace = []\<rparr>"

definition no_faults :: faults where
  "no_faults = \<lparr>ping_raises = False, get_raises = False,
                set_outcome = Succeeds, delete_outcome = Succeeds\<rparr>"

definition redis_down :: faults where
  "redis_down = \<lparr>ping_raises = True, get_raises = True,
                 set_outcome = Fails, delete_outcome = Fails\<rparr>"

text \<open>
  States of the instance: \<open>warm_state\<close> after one fetch of product 1, \<open>stale_state\<close>
  after that fetch and an update of product 1 whose invalidation has not run yet,
  \<open>foreign_state\<close> with a Redis key for an id the store does not have, and
  \<open>corrupt_state\<close> with a payload that does not deserialise.
\<close>

definition warm_state :: "int state" where
  "warm_state = fst (run row_dumps row_loads [Fetch no_faults 1] (initial_state, []))"

definition stale_state :: "int state" where
  "stale_state =
     fst (run row_dumps row_loads
            [Fetch no_faults 1, Update 1 \<lparr>upd_name = None, upd_price = Some 1100\<rparr>]
            (initial_state, []))"

definition foreign_state :: "int state" where
  "foreign_state = initial_state\<lparr>entries := [''product:9'' \<mapsto> (''9,70,Ghost'', 60)]\<rparr>"

definition corrupt_state :: "int state" where
  "corrupt_state = initial_state\<lparr>entries := [''product:1'' \<mapsto> (''{broken'', 60)]\<rparr>"


section \<open>The decimal rendering loses nothing\<close>

lemma digit_val_digit_char: "d < 10 \<Longrightarrow> digit_val (digit_char d) = d"
  by (simp add: digit_val_def digit_char_def)

lemma nat_of_digits_snoc: "nat_of_digits (cs @ [c]) = 10 * nat_of_digits cs + digit_val c"
  by (simp add: nat_of_digits_def)

lemma nat_of_digits_digits: "nat_of_digits (digits n) = n"
proof (induction n rule: digits.induct)
  case (1 n)
  show ?case
  proof (cases "n < 10")
    case True
    then show ?thesis
      by (subst digits.simps) (simp add: nat_of_digits_def digit_val_digit_char)
  next
    case False
    then have "nat_of_digits (digits (n div 10)) = n div 10"
      using 1 by simp
    with False show ?thesis
      by (subst digits.simps) (simp add: nat_of_digits_snoc digit_val_digit_char)
  qed
qed

lemma of_char_digit_char: "d < 10 \<Longrightarrow> (of_char (digit_char d) :: nat) = 48 + d"
  by (simp add: digit_char_def)

lemma digit_char_not_minus: "d < 10 \<Longrightarrow> digit_char d \<noteq> CHR ''-''"
proof
  assume "d < 10" and "digit_char d = CHR ''-''"
  then have "(of_char (digit_char d) :: nat) = of_char (CHR ''-'')" by simp
  with \<open>d < 10\<close> show False by (simp add: of_char_digit_char)
qed


lemma digits_chars: "set (digits n) \<subseteq> digit_char ` {..<10}"
proof (induction n rule: digits.induct)
  case (1 n)
  show ?case
  proof (cases "n < 10")
    case True
    then show ?thesis
      by (subst digits.simps) simp
  next
    case False
    then have "set (digits (n div 10)) \<subseteq> digit_char ` {..<10}"
      using 1 by simp
    with False show ?thesis
      by (subst digits.simps) simp
  qed
qed

lemma digits_nonempty: "digits n \<noteq> []"
  by (subst digits.simps) simp

lemma hd_digits_not_minus: "hd (digits n) \<noteq> CHR ''-''"
proof -
  have "hd (digits n) \<in> set (digits n)"
    by (simp add: digits_nonempty)
  then obtain d where "d < 10" "hd (digits n) = digit_char d"
    using digits_chars by blast
  then show ?thesis
    by (simp add: digit_char_not_minus)
qed

lemma int_of_str_digits: "int_of_str (digits n) = int n"
proof (cases "digits n")
  case Nil
  then show ?thesis by (simp add: digits_nonempty)
next
  case (Cons c rest)
  then have "c \<noteq> CHR ''-''"
    using hd_digits_not_minus [of n] by simp
  with Cons show ?thesis
    using nat_of_digits_digits [of n] by (simp add: int_of_str_def)
qed

lemma int_of_str_str_int: "int_of_str (str_int i) = i"
proof (cases "i < 0")
  case True
  then show ?thesis
    by (simp add: str_int_def int_of_str_def nat_of_digits_digits)
next
  case False
  then show ?thesis
    by (simp add: str_int_def int_of_str_digits)
qed

lemma str_int_inj: "str_int i = str_int j \<Longrightarrow> i = j"
  by (metis int_of_str_str_int)

lemma product_cache_key_inj: "product_cache_key i = product_cache_key j \<Longrightarrow> i = j"
  by (simp add: product_cache_key_def str_int_inj)



lemma str_int_examples:
  "str_int 42 = ''42''" "str_int (- 7) = ''-7''" "str_int 0 = ''0''"
  "product_cache_key 1000 = ''product:1000''"
  by code_simp+

section \<open>Updating a product\<close>


text \<open>
  C3: when the store holds a record for the id, \<open>update_product\<close> returns the record
  merged from it and the patch: each field the patch provides is overwritten, each field
  it omits (and the id) is kept. The same merged record is what the store holds for the id
  when the call returns; the write follows the read and nothing else touches the store.
\<close>

theorem update_product_merges:
  assumes "PRODUCTS_DB s product_id = Some existing"
  shows "let merged = \<lparr>id_field = id_field existing,
                        name = (case upd_name update of Some n \<Rightarrow> n | None \<Rightarrow> name existing),
                        price = (case upd_price update of Some p \<Rightarrow> p | None \<Rightarrow> price existing)\<rparr>
         in update_product product_id update background_tasks s =
              (Inr merged,
               background_tasks @ [product_id],
               s\<lparr>PRODUCTS_DB := (PRODUCTS_DB s)(product_id \<mapsto> merged),
                  trace := trace s @ [DbRead product_id, DbWrite product_id]\<rparr>)"
  using assms
  by (cases existing)
     (simp add: update_product_def get_product_from_db_def Let_def split: option.splits)

theorem update_product_merges_witness:
  "PRODUCTS_DB initial_state 2 = Some \<lparr>id_field = 2, name = ''Smartphone'', price = 500\<rparr> \<and>
   update_product 2 \<lparr>upd_name = None, upd_price = Some 550\<rparr> [] initial_state =
     (Inr \<lparr>id_field = 2, name = ''Smartphone'', price = 550\<rparr>,
      [2],
      initial_state\<lparr>PRODUCTS_DB := (PRODUCTS_DB initial_state)(2 \<mapsto>
                       \<lparr>id_field = 2, name = ''Smartphone'', price = 550\<rparr>),
                    trace := trace initial_state @ [DbRead 2, DbWrite 2]\<rparr>)"
proof -
  have h: "PRODUCTS_DB initial_state 2 = Some \<lparr>id_field = 2, name = ''Smartphone'', price = 500\<rparr>"
    by (simp add: initial_state_def)
  show ?thesis
    using h update_product_merges [OF h, of "\<lparr>upd_name = None, upd_price = Some 550\<rparr>" "[]"]
    by (simp add: Let_def)
qed

text \<open>
  C6: with the empty patch, \<open>update_product\<close> on a stored id returns the stored record,
  leaves the store as it was, and still appends the id to the scheduled invalidations.
\<close>

theorem update_product_empty_patch:
  assumes "PRODUCTS_DB s product_id = Some existing"
  shows "update_product product_id \<lparr>upd_name = None, upd_price = None\<rparr> background_tasks s =
           (Inr existing,
            background_tasks @ [product_id],
            s\<lparr>trace := trace s @ [DbRead product_id, DbWrite product_id]\<rparr>)"
proof -
  have "(PRODUCTS_DB s)(product_id \<mapsto> existing) = PRODUCTS_DB s"
    using assms by (simp add: map_upd_triv)
  then show ?thesis
    using assms by (simp add: update_product_def get_product_from_db_def)
qed

theorem update_product_empty_patch_witness:
  "PRODUCTS_DB initial_state 3 = Some \<lparr>id_field = 3, name = ''Headphones'', price = 100\<rparr> \<and>
   update_product 3 \<lparr>upd_name = None, upd_price = None\<rparr> [] initial_state =
     (Inr \<lparr>id_field = 3, name = ''Headphones'', price = 100\<rparr>,
      [3],
      initial_state\<lparr>trace := trace initial_state @ [DbRead 3, DbWrite 3]\<rparr>)"
proof -
  have h: "PRODUCTS_DB initial_state 3 = Some \<lparr>id_field = 3, name = ''Headphones'', price = 100\<rparr>"
    by (simp add: initial_state_def)
  show ?thesis
    using h update_product_empty_patch [OF h, of "[]"] by simp
qed

text \<open>
  C9: \<open>update_product\<close> leaves the store's record of every other identifier as it was.
\<close>

theorem update_product_frame:
  assumes "other \<noteq> product_id"
  shows "PRODUCTS_DB (snd (snd (update_product product_id update background_tasks s))) other =
           PRODUCTS_DB s other"
  using assms
  by (simp add: update_product_def get_product_from_db_def Let_def split: option.splits)

theorem update_product_frame_witness:
  "(1::int) \<noteq> 2 \<and>
   fst (update_product 2 \<lparr>upd_name = Some ''Phone'', upd_price = Some 550\<rparr> [] initial_state) =
     Inr \<lparr>id_field = 2, name = ''Phone'', price = 550\<rparr> \<and>
   PRODUCTS_DB (snd (snd (update_product 2 \<lparr>upd_name = Some ''Phone'', upd_price = Some 550\<rparr> []
                            initial_state))) 1 =
     Some \<lparr>id_field = 1, name = ''Laptop'', price = 1000\<rparr>"
proof -
  have h: "(1::int) \<noteq> 2" by simp
  have r: "fst (update_product 2 \<lparr>upd_name = Some ''Phone'', upd_price = Some 550\<rparr> [] initial_state) =
     Inr \<lparr>id_field = 2, name = ''Phone'', price = 550\<rparr>"
    by (simp add: update_product_def get_product_from_db_def initial_state_def Let_def)
  show ?thesis
    using h r update_product_frame [OF h, of "\<lparr>upd_name = Some ''Phone'', upd_price = Some 550\<rparr>" "[]"
        initial_state]
    by (simp add: initial_state_def)
qed

text \<open>
  C10: when the store holds no record for the id, \<open>update_product\<close> raises the 404
  and changes nothing but the log of accesses: the store, the Redis keys and the scheduled
  invalidations are the ones it was given.
\<close>

theorem update_product_not_found:
  assumes "PRODUCTS_DB s product_id = None"
  shows "update_product product_id update background_tasks s =
           (Inl (HTTPException 404), background_tasks, s\<lparr>trace := trace s @ [DbRead product_id]\<rparr>)"
  using assms by (simp add: update_product_def get_product_from_db_def)

theorem update_product_not_found_witness:
  "PRODUCTS_DB initial_state 7 = None \<and>
   update_product 7 \<lparr>upd_name = Some ''Tablet'', upd_price = Some 300\<rparr> [2] initial_state =
     (Inl (HTTPException 404), [2], initial_state\<lparr>trace := trace initial_state @ [DbRead 7]\<rparr>)"
proof -
  have h: "PRODUCTS_DB initial_state 7 = None"
    by (simp add: initial_state_def)
  show ?thesis
    using h update_product_not_found [OF h, of "\<lparr>upd_name = Some ''Tablet'', upd_price = Some 300\<rparr>" "[2]"]
    by simp
qed

section \<open>Fetching a product\<close>

lemmas fetch_defs =
  get_product_def try_cache_def get_redis_connection_def redis_ping_def redis_get_def
  redis_set_def get_product_from_db_def Let_def

lemma get_product_result:
  "fst (get_product dumps loads f product_id s) =
     (if redis s \<and> \<not> ping_raises f \<and> \<not> get_raises f \<and>
         (case entries s (product_cache_key product_id) of
            None \<Rightarrow> False
          | Some (c, t) \<Rightarrow> c \<noteq> [] \<and> \<not> isl (loads c))
      then Inr (projr (loads (fst (the (entries s (product_cache_key product_id))))))
      else case PRODUCTS_DB s product_id of
             None \<Rightarrow> Inl (HTTPException 404)
           | Some r \<Rightarrow> Inr r)"
  by (auto simp: fetch_defs split: option.splits sum.splits prod.splits)

lemma get_product_store: "PRODUCTS_DB (snd (get_product dumps loads f product_id s)) = PRODUCTS_DB s"
  by (auto simp: fetch_defs split: option.splits sum.splits prod.splits outcome.splits)

lemma get_product_entries:
  assumes "entries (snd (get_product dumps loads f product_id s)) k = Some (c, t)"
  shows "entries s k = Some (c, t) \<or>
         (k = product_cache_key product_id \<and> t = 60 \<and>
          (\<exists>r. PRODUCTS_DB s product_id = Some r \<and> c = dumps r))"
  using assms
  by (auto simp: fetch_defs CACHE_TTL_def
      split: option.splits sum.splits prod.splits outcome.splits if_splits)

lemma update_product_entries:
  "entries (snd (snd (update_product product_id update q s))) = entries s"
  by (simp add: update_product_def get_product_from_db_def Let_def split: option.splits)

lemma invalidate_cache_store: "PRODUCTS_DB (invalidate_cache f product_id s) = PRODUCTS_DB s"
  by (auto simp: invalidate_cache_def get_redis_connection_def redis_ping_def redis_delete_def
      Let_def split: outcome.splits)

lemma invalidate_cache_entries:
  assumes "entries (invalidate_cache f product_id s) k = Some v"
  shows "entries s k = Some v"
  using assms
  by (auto simp: invalidate_cache_def get_redis_connection_def redis_ping_def redis_delete_def
      Let_def split: outcome.splits if_splits)

lemma step_entries:
  assumes "entries (fst (step dumps loads e (s, q))) k = Some (c, t)"
  shows "entries s k = Some (c, t) \<or>
         (\<exists>i r. k = product_cache_key i \<and> c = dumps r \<and> PRODUCTS_DB s i = Some r)"
proof (cases e)
  case (Fetch f i)
  then show ?thesis
    using assms get_product_entries [of dumps loads f i s k c t] by auto
next
  case (Update i u)
  then show ?thesis
    using assms update_product_entries [of i u q s]
    by (simp split: prod.splits)
next
  case (RunTask f)
  then show ?thesis
    using assms by (auto split: list.splits dest: invalidate_cache_entries)
next
  case (Expire key)
  then show ?thesis
    using assms by (auto split: if_splits)
qed

lemma run_snoc: "run dumps loads (es @ [e]) c = step dumps loads e (run dumps loads es c)"
  by (simp add: run_def)

lemma run_entries:
  assumes init: "\<forall>i c t. entries s0 (product_cache_key i) = Some (c, t) \<longrightarrow>
                   (\<exists>r. PRODUCTS_DB s0 i = Some r \<and> c = dumps r)"
  shows "entries (fst (run dumps loads es (s0, q0))) (product_cache_key i) = Some (c, t) \<Longrightarrow>
         \<exists>r n. c = dumps r \<and> n \<le> length es \<and>
               PRODUCTS_DB (fst (run dumps loads (take n es) (s0, q0))) i = Some r"
proof (induction es arbitrary: c t rule: rev_induct)
  case Nil
  then have "entries s0 (product_cache_key i) = Some (c, t)"
    by (simp add: run_def)
  with init obtain r where "PRODUCTS_DB s0 i = Some r" and "c = dumps r"
    by blast
  then show ?case
    by (intro exI [of _ r] exI [of _ 0]) (simp add: run_def)
next
  case (snoc e es)
  obtain s q where sq: "run dumps loads es (s0, q0) = (s, q)"
    by (cases "run dumps loads es (s0, q0)")
  from snoc.prems
  have "entries (fst (step dumps loads e (s, q))) (product_cache_key i) = Some (c, t)"
    by (simp add: run_snoc sq)
  then consider "entries s (product_cache_key i) = Some (c, t)"
    | j r where "product_cache_key i = product_cache_key j" "c = dumps r"
        "PRODUCTS_DB s j = Some r"
    using step_entries by blast
  then show ?case
  proof cases
    case 1
    then have "entries (fst (run dumps loads es (s0, q0))) (product_cache_key i) = Some (c, t)"
      by (simp add: sq)
    then obtain r n where "c = dumps r" "n \<le> length es"
      "PRODUCTS_DB (fst (run dumps loads (take n es) (s0, q0))) i = Some r"
      using snoc.IH by blast
    then show ?thesis
      by (intro exI [of _ r] exI [of _ n]) simp
  next
    case 2
    from 2(1) have "j = i"
      by (simp add: product_cache_key_inj)
    with 2 have "PRODUCTS_DB (fst (run dumps loads (take (length es) (es @ [e])) (s0, q0))) i = Some r"
      by (simp add: sq)
    with 2 show ?thesis
      by (intro exI [of _ r] exI [of _ "length es"]) simp
  qed
qed






text \<open>
  C5: when the client is connected, \<open>ping\<close> and \<open>get\<close> succeed and Redis holds under
  the product's key a non-empty payload that deserialises, \<open>get_product\<close> returns the
  deserialised product. The state it leaves differs only by the two Redis commands in
  the log: the store is neither read nor written.
\<close>

theorem get_product_fast_path:
  assumes "redis s" and "\<not> ping_raises f" and "\<not> get_raises f"
    and "entries s (product_cache_key product_id) = Some (c, t)"
    and "c \<noteq> []" and "loads c = Inr p"
  shows "get_product dumps loads f product_id s =
           (Inr p, s\<lparr>trace := trace s @ [Ping, Get (product_cache_key product_id)]\<rparr>)"
  using assms by (simp add: fetch_defs)

theorem get_product_fast_path_witness:
  "redis warm_state \<and> \<not> ping_raises no_faults \<and> \<not> get_raises no_faults \<and>
   entries warm_state (product_cache_key 1) = Some (''1,1000,Laptop'', 60) \<and>
   ''1,1000,Laptop'' \<noteq> [] \<and>
   row_loads ''1,1000,Laptop'' = Inr \<lparr>id_field = 1, name = ''Laptop'', price = 1000\<rparr> \<and>
   get_product row_dumps row_loads no_faults 1 warm_state =
     (Inr \<lparr>id_field = 1, name = ''Laptop'', price = 1000\<rparr>,
      warm_state\<lparr>trace := trace warm_state @ [Ping, Get (product_cache_key 1)]\<rparr>)"
proof -
  have h1: "redis warm_state" by code_simp
  have h2: "\<not> ping_raises no_faults" by code_simp
  have h3: "\<not> get_raises no_faults" by code_simp
  have h4: "entries warm_state (product_cache_key 1) = Some (''1,1000,Laptop'', 60)" by code_simp
  have h5: "''1,1000,Laptop'' \<noteq> []" by simp
  have h6: "row_loads ''1,1000,Laptop'' = Inr \<lparr>id_field = 1, name = ''Laptop'', price = 1000\<rparr>"
    by code_simp
  from get_product_fast_path [where loads = row_loads and dumps = row_dumps, OF h1 h2 h3 h4 h5 h6]
    h1 h2 h3 h4 h5 h6
  show ?thesis by blast
qed

text \<open>
  C1, amended: for an id the store has a record for, \<open>get_product\<close> returns that record
  exactly when the cache serves nothing else: the client is missing, \<open>ping\<close> or \<open>get\<close>
  fails, the key is absent, its payload is empty or does not deserialise, or it
  deserialises to the store's current record. Otherwise the cached record is returned.
\<close>

theorem get_product_store_record:
  assumes "PRODUCTS_DB s product_id = Some r"
  shows "(fst (get_product dumps loads f product_id s) = Inr r) =
           (\<not> redis s \<or> ping_raises f \<or> get_raises f \<or>
            (case entries s (product_cache_key product_id) of
               None \<Rightarrow> True
             | Some (c, t) \<Rightarrow> c = [] \<or> isl (loads c) \<or> loads c = Inr r))"
  using assms
  by (auto simp: fetch_defs split: option.splits sum.splits prod.splits)

theorem get_product_store_record_witness:
  "PRODUCTS_DB stale_state 1 = Some \<lparr>id_field = 1, name = ''Laptop'', price = 1100\<rparr> \<and>
   ping_raises redis_down \<and>
   fst (get_product row_dumps row_loads redis_down 1 stale_state) =
     Inr \<lparr>id_field = 1, name = ''Laptop'', price = 1100\<rparr>"
proof -
  have h: "PRODUCTS_DB stale_state 1 = Some \<lparr>id_field = 1, name = ''Laptop'', price = 1100\<rparr>"
    by code_simp
  have d: "ping_raises redis_down" by code_simp
  from get_product_store_record [OF h, of row_dumps row_loads redis_down] h d
  show ?thesis by blast
qed

text \<open>
  C1 as stated fails after an update whose invalidation has not run: the store holds the
  new price, Redis is healthy and still holds the old record, and the fetch returns the
  old one.
\<close>

theorem stale_cache_counterexample:
  "PRODUCTS_DB stale_state 1 = Some \<lparr>id_field = 1, name = ''Laptop'', price = 1100\<rparr> \<and>
   fst (get_product row_dumps row_loads no_faults 1 stale_state) =
     Inr \<lparr>id_field = 1, name = ''Laptop'', price = 1000\<rparr> \<and>
   fst (get_product row_dumps row_loads no_faults 1 stale_state) \<noteq>
     Inr \<lparr>id_field = 1, name = ''Laptop'', price = 1100\<rparr>"
  by code_simp

text \<open>
  C2, amended: for an id the store has no record for, \<open>get_product\<close> raises the 404
  exactly when the cache serves nothing: the client is missing, \<open>ping\<close> or \<open>get\<close> fails,
  the key is absent, or its payload is empty or does not deserialise. That covers a
  healthy and empty Redis and a Redis that is down.
\<close>

theorem get_product_not_found:
  assumes "PRODUCTS_DB s product_id = None"
  shows "(fst (get_product dumps loads f product_id s) = Inl (HTTPException 404)) =
           (\<not> redis s \<or> ping_raises f \<or> get_raises f \<or>
            (case entries s (product_cache_key product_id) of
               None \<Rightarrow> True
             | Some (c, t) \<Rightarrow> c = [] \<or> isl (loads c)))"
  using assms
  by (auto simp: fetch_defs split: option.splits sum.splits prod.splits)

theorem get_product_not_found_witness:
  "PRODUCTS_DB initial_state 7 = None \<and>
   entries initial_state (product_cache_key 7) = None \<and>
   fst (get_product row_dumps row_loads no_faults 7 initial_state) = Inl (HTTPException 404) \<and>
   PRODUCTS_DB foreign_state 9 = None \<and>
   ping_raises redis_down \<and>
   fst (get_product row_dumps row_loads redis_down 9 foreign_state) = Inl (HTTPException 404)"
proof -
  have h: "PRODUCTS_DB initial_state 7 = None" by code_simp
  have e: "entries initial_state (product_cache_key 7) = None" by code_simp
  have h': "PRODUCTS_DB foreign_state 9 = None" by code_simp
  have d: "ping_raises redis_down" by code_simp
  from get_product_not_found [OF h, of row_dumps row_loads no_faults] e
  have 1: "fst (get_product row_dumps row_loads no_faults 7 initial_state) = Inl (HTTPException 404)"
    by simp
  from get_product_not_found [OF h', of row_dumps row_loads redis_down] d
  have 2: "fst (get_product row_dumps row_loads redis_down 9 foreign_state) = Inl (HTTPException 404)"
    by blast
  from h e 1 h' d 2 show ?thesis by blast
qed

text \<open>
  C2 as stated fails on a healthy Redis that holds a payload under the key of an id the
  store does not have: the fetch returns the cached product, not the 404.
\<close>

theorem foreign_entry_counterexample:
  "PRODUCTS_DB foreign_state 9 = None \<and>
   fst (get_product row_dumps row_loads no_faults 9 foreign_state) =
     Inr \<lparr>id_field = 9, name = ''Ghost'', price = 70\<rparr> \<and>
   fst (get_product row_dumps row_loads no_faults 9 foreign_state) \<noteq> Inl (HTTPException 404)"
  by code_simp

text \<open>
  Such a payload is never the service's own: the store never loses a record and every
  key the service writes serialises a record of the store. So from an empty Redis, after
  any sequence of calls, a fetch of an id the store has no record for raises the 404
  under every fault.
\<close>

lemma step_store_mono:
  assumes "PRODUCTS_DB s i \<noteq> None"
  shows "PRODUCTS_DB (fst (step dumps loads e (s, q))) i \<noteq> None"
proof (cases e)
  case (Fetch f j)
  then show ?thesis
    using assms by (simp add: get_product_store)
next
  case (Update j u)
  then show ?thesis
    using assms
    by (auto simp: update_product_def get_product_from_db_def Let_def split: option.splits)
next
  case (RunTask f)
  then show ?thesis
    using assms by (simp add: invalidate_cache_store split: list.splits)
next
  case (Expire key)
  then show ?thesis
    using assms by simp
qed

lemma run_store_mono:
  "PRODUCTS_DB (fst c) i \<noteq> None \<Longrightarrow> PRODUCTS_DB (fst (run dumps loads es c)) i \<noteq> None"
proof (induction es rule: rev_induct)
  case Nil
  then show ?case by (simp add: run_def)
next
  case (snoc e es)
  then have "PRODUCTS_DB (fst (run dumps loads es c)) i \<noteq> None"
    by simp
  then show ?case
    using step_store_mono [of "fst (run dumps loads es c)" i dumps loads e "snd (run dumps loads es c)"]
    by (simp add: run_snoc)
qed

lemma run_take_drop:
  "run dumps loads es c = run dumps loads (drop n es) (run dumps loads (take n es) c)"
proof -
  have "run dumps loads (take n es @ drop n es) c =
        run dumps loads (drop n es) (run dumps loads (take n es) c)"
    unfolding run_def by (rule foldl_append)
  then show ?thesis by simp
qed

lemma get_product_not_found_reachable:
  assumes empty: "entries s0 = Map.empty"
    and absent: "PRODUCTS_DB (fst (run dumps loads es (s0, q0))) product_id = None"
  shows "fst (get_product dumps loads f product_id (fst (run dumps loads es (s0, q0)))) =
           Inl (HTTPException 404)"
proof -
  let ?s = "fst (run dumps loads es (s0, q0))"
  have "entries ?s (product_cache_key product_id) = None"
  proof (rule ccontr)
    assume "entries ?s (product_cache_key product_id) \<noteq> None"
    then obtain c t where "entries ?s (product_cache_key product_id) = Some (c, t)"
      by auto
    moreover have "\<forall>i c t. entries s0 (product_cache_key i) = Some (c, t) \<longrightarrow>
                     (\<exists>r. PRODUCTS_DB s0 i = Some r \<and> c = dumps r)"
      by (simp add: empty)
    ultimately obtain r n
      where "PRODUCTS_DB (fst (run dumps loads (take n es) (s0, q0))) product_id = Some r"
      using run_entries [where ?s0.0 = s0 and dumps = dumps and i = product_id] by blast
    then have "PRODUCTS_DB (fst (run dumps loads (take n es) (s0, q0))) product_id \<noteq> None"
      by simp
    then have "PRODUCTS_DB (fst (run dumps loads (drop n es)
                 (run dumps loads (take n es) (s0, q0)))) product_id \<noteq> None"
      by (rule run_store_mono)
    then have "PRODUCTS_DB ?s product_id \<noteq> None"
      using run_take_drop [of dumps loads es "(s0, q0)" n] by simp
    with absent show False by simp
  qed
  with absent show ?thesis
    by (simp add: get_product_result)
qed

section \<open>Failures of the cache\<close>

lemmas invalidate_defs =
  invalidate_cache_def get_redis_connection_def redis_ping_def redis_delete_def Let_def

lemma get_product_no_cache:
  "fst (get_product dumps loads f product_id (s\<lparr>redis := False\<rparr>)) =
     (case PRODUCTS_DB s product_id of None \<Rightarrow> Inl (HTTPException 404) | Some r \<Rightarrow> Inr r)"
  by (simp add: get_product_result)

lemma get_product_miss:
  assumes "\<not> redis s \<or> ping_raises f \<or> get_raises f \<or>
           (\<exists>c t. entries s (product_cache_key product_id) = Some (c, t) \<and> isl (loads c))"
  shows "fst (get_product dumps loads f product_id s) =
           fst (get_product dumps loads f product_id (s\<lparr>redis := False\<rparr>))"
  using assms by (auto simp: get_product_result)

lemma get_product_raises:
  "fst (get_product dumps loads f product_id s) = Inl e \<Longrightarrow> e = HTTPException 404"
  by (auto simp: get_product_result split: if_splits option.splits)

lemma get_product_set_outcome:
  "fst (get_product dumps loads (f\<lparr>set_outcome := out\<rparr>) product_id s) =
     fst (get_product dumps loads f product_id s)"
  by (simp add: get_product_result)

lemma get_product_set_fails:
  "set_outcome f = Fails \<Longrightarrow> entries (snd (get_product dumps loads f product_id s)) = entries s"
  by (auto simp: fetch_defs split: option.splits sum.splits prod.splits)

lemma update_product_ignores_cache:
  "fst (update_product product_id update q (s\<lparr>redis := b, entries := en\<rparr>)) =
     fst (update_product product_id update q s) \<and>
   fst (snd (update_product product_id update q (s\<lparr>redis := b, entries := en\<rparr>))) =
     fst (snd (update_product product_id update q s)) \<and>
   PRODUCTS_DB (snd (snd (update_product product_id update q (s\<lparr>redis := b, entries := en\<rparr>)))) =
     PRODUCTS_DB (snd (snd (update_product product_id update q s)))"
  by (simp add: update_product_def get_product_from_db_def Let_def split: option.splits)

lemma invalidate_cache_fails:
  "\<not> redis s \<or> ping_raises f \<or> delete_outcome f = Fails \<Longrightarrow>
   entries (invalidate_cache f product_id s) = entries s"
  by (auto simp: invalidate_defs)

lemma on_startup_fails:
  "from_url_raises \<or> ping_raises f \<Longrightarrow> \<not> redis (on_startup from_url_raises f s)"
  by (auto simp: on_startup_def redis_ping_def)

text \<open>
  C4: no failure of the cache surfaces. The only exception \<open>get_product\<close> raises is the
  404. When the client is missing, \<open>ping\<close> or \<open>get\<close> fails, or the payload under
  the key does not deserialise, \<open>get_product\<close> returns what it returns with no client
  at all, which is the store's answer. The outcome of \<open>set\<close> never changes the result,
  and a failed \<open>set\<close> leaves Redis as it was. \<open>update_product\<close> returns the same
  result, schedules the same tasks and writes the same store whatever the client and
  Redis hold. A failed \<open>ping\<close> or \<open>delete\<close> makes \<open>invalidate_cache\<close> a no-op on Redis,
  and it never touches the store. A failed connect or first \<open>ping\<close> at startup leaves
  \<open>redis\<close> at \<open>None\<close>.
\<close>

theorem cache_failures_absorbed:
  "(\<forall>e. fst (get_product dumps loads f product_id s) = Inl e \<longrightarrow> e = HTTPException 404) \<and>
   (\<not> redis s \<or> ping_raises f \<or> get_raises f \<or>
    (\<exists>c t. entries s (product_cache_key product_id) = Some (c, t) \<and> isl (loads c)) \<longrightarrow>
      fst (get_product dumps loads f product_id s) =
        fst (get_product dumps loads f product_id (s\<lparr>redis := False\<rparr>))) \<and>
   fst (get_product dumps loads f product_id (s\<lparr>redis := False\<rparr>)) =
     (case PRODUCTS_DB s product_id of None \<Rightarrow> Inl (HTTPException 404) | Some r \<Rightarrow> Inr r) \<and>
   fst (get_product dumps loads (f\<lparr>set_outcome := out\<rparr>) product_id s) =
     fst (get_product dumps loads f product_id s) \<and>
   (set_outcome f = Fails \<longrightarrow>
      entries (snd (get_product dumps loads f product_id s)) = entries s) \<and>
   fst (update_product product_id update q (s\<lparr>redis := b, entries := en\<rparr>)) =
     fst (update_product product_id update q s) \<and>
   PRODUCTS_DB (snd (snd (update_product product_id update q (s\<lparr>redis := b, entries := en\<rparr>)))) =
     PRODUCTS_DB (snd (snd (update_product product_id update q s))) \<and>
   (\<not> redis s \<or> ping_raises f \<or> delete_outcome f = Fails \<longrightarrow>
      entries (invalidate_cache f product_id s) = entries s) \<and>
   PRODUCTS_DB (invalidate_cache f product_id s) = PRODUCTS_DB s \<and>
   (from_url_raises \<or> ping_raises f \<longrightarrow> \<not> redis (on_startup from_url_raises f s))"
proof (intro conjI allI impI)
  fix e
  assume "fst (get_product dumps loads f product_id s) = Inl e"
  then show "e = HTTPException 404"
    by (rule get_product_raises)
next
  assume "\<not> redis s \<or> ping_raises f \<or> get_raises f \<or>
    (\<exists>c t. entries s (product_cache_key product_id) = Some (c, t) \<and> isl (loads c))"
  then show "fst (get_product dumps loads f product_id s) =
        fst (get_product dumps loads f product_id (s\<lparr>redis := False\<rparr>))"
    by (rule get_product_miss)
next
  show "fst (get_product dumps loads f product_id (s\<lparr>redis := False\<rparr>)) =
     (case PRODUCTS_DB s product_id of None \<Rightarrow> Inl (HTTPException 404) | Some r \<Rightarrow> Inr r)"
    by (rule get_product_no_cache)
next
  show "fst (get_product dumps loads (f\<lparr>set_outcome := out\<rparr>) product_id s) =
     fst (get_product dumps loads f product_id s)"
    by (rule get_product_set_outcome)
next
  assume "set_outcome f = Fails"
  then show "entries (snd (get_product dumps loads f product_id s)) = entries s"
    by (rule get_product_set_fails)
next
  show "fst (update_product product_id update q (s\<lparr>redis := b, entries := en\<rparr>)) =
     fst (update_product product_id update q s)"
    by (simp add: update_product_ignores_cache)
next
  show "PRODUCTS_DB (snd (snd (update_product product_id update q (s\<lparr>redis := b, entries := en\<rparr>)))) =
     PRODUCTS_DB (snd (snd (update_product product_id update q s)))"
    by (simp add: update_product_ignores_cache)
next
  assume "\<not> redis s \<or> ping_raises f \<or> delete_outcome f = Fails"
  then show "entries (invalidate_cache f product_id s) = entries s"
    by (rule invalidate_cache_fails)
next
  show "PRODUCTS_DB (invalidate_cache f product_id s) = PRODUCTS_DB s"
    by (rule invalidate_cache_store)
next
  assume "from_url_raises \<or> ping_raises f"
  then show "\<not> redis (on_startup from_url_raises f s)"
    by (rule on_startup_fails)
qed

theorem cache_failures_absorbed_witness:
  "ping_raises redis_down \<and> set_outcome redis_down = Fails \<and> delete_outcome redis_down = Fails \<and>
   fst (get_product row_dumps row_loads redis_down 1 stale_state) =
     fst (get_product row_dumps row_loads redis_down 1 (stale_state\<lparr>redis := False\<rparr>)) \<and>
   fst (get_product row_dumps row_loads redis_down 1 stale_state) =
     Inr \<lparr>id_field = 1, name = ''Laptop'', price = 1100\<rparr> \<and>
   entries (snd (get_product row_dumps row_loads redis_down 1 stale_state)) = entries stale_state \<and>
   entries (invalidate_cache redis_down 1 stale_state) = entries stale_state \<and>
   \<not> redis (on_startup True redis_down stale_state) \<and>
   entries corrupt_state (product_cache_key 1) = Some (''{broken'', 60) \<and>
   isl (row_loads ''{broken'') \<and>
   fst (get_product row_dumps row_loads no_faults 1 corrupt_state) =
     Inr \<lparr>id_field = 1, name = ''Laptop'', price = 1000\<rparr>"
proof -
  have f: "ping_raises redis_down" "set_outcome redis_down = Fails"
    "delete_outcome redis_down = Fails"
    by (simp_all add: redis_down_def)
  have db: "PRODUCTS_DB stale_state 1 = Some \<lparr>id_field = 1, name = ''Laptop'', price = 1100\<rparr>"
    by code_simp
  have db': "PRODUCTS_DB corrupt_state 1 = Some \<lparr>id_field = 1, name = ''Laptop'', price = 1000\<rparr>"
    by code_simp
  have c: "entries corrupt_state (product_cache_key 1) = Some (''{broken'', 60)"
    by code_simp
  have l: "isl (row_loads ''{broken'')"
    by code_simp
  note down = cache_failures_absorbed [where dumps = row_dumps and loads = row_loads
      and f = redis_down and product_id = 1 and s = stale_state and from_url_raises = True]
  note corrupt = cache_failures_absorbed [where dumps = row_dumps and loads = row_loads
      and f = no_faults and product_id = 1 and s = corrupt_state]
  from corrupt c l
  have "fst (get_product row_dumps row_loads no_faults 1 corrupt_state) =
     Inr \<lparr>id_field = 1, name = ''Laptop'', price = 1000\<rparr>"
    by (simp add: db')
  moreover from down f
  have "fst (get_product row_dumps row_loads redis_down 1 stale_state) =
     Inr \<lparr>id_field = 1, name = ''Laptop'', price = 1100\<rparr>"
    by (simp add: db)
  ultimately show ?thesis
    using down f c l by simp
qed

section \<open>Cache keys and expiry\<close>

lemma get_product_trace:
  "\<exists>ios. trace (snd (get_product dumps loads f product_id s)) = trace s @ ios \<and>
         set ios \<subseteq> {Ping, Get (product_cache_key product_id), DbRead product_id} \<union>
                   {Set (product_cache_key product_id) (dumps r) 60 |r.
                      PRODUCTS_DB s product_id = Some r}"
  by (auto simp: fetch_defs CACHE_TTL_def
      split: option.splits sum.splits prod.splits outcome.splits)

lemma invalidate_cache_trace:
  "\<exists>ios. trace (invalidate_cache f product_id s) = trace s @ ios \<and>
         set ios \<subseteq> {Ping, Delete (product_cache_key product_id)}"
  by (auto simp: invalidate_defs split: outcome.splits)

lemma get_product_writes:
  "entries (snd (get_product dumps loads f product_id s)) k \<noteq> entries s k \<Longrightarrow>
   k = product_cache_key product_id \<and>
   (\<exists>r. PRODUCTS_DB s product_id = Some r \<and>
        entries (snd (get_product dumps loads f product_id s)) k = Some (dumps r, 60))"
  by (auto simp: fetch_defs CACHE_TTL_def
      split: option.splits sum.splits prod.splits outcome.splits if_splits)

text \<open>
  C7: the cache key is \<open>product:\<close> followed by the decimal rendering of the id, which
  reads back as the id. Whatever the faults, the only Redis commands \<open>get_product\<close>
  sends are \<open>ping\<close>, \<open>get\<close> of that key and \<open>set\<close> of that key to the serialised store
  record with an expiry of 60 seconds; any key it changes is that key, left with that
  payload and that expiry. \<open>invalidate_cache\<close> sends only \<open>ping\<close> and \<open>delete\<close> of
  that key.
\<close>

theorem cache_key_and_ttl:
  "product_cache_key product_id = ''product:'' @ str_int product_id \<and>
   int_of_str (str_int product_id) = product_id \<and>
   (\<exists>ios. trace (snd (get_product dumps loads f product_id s)) = trace s @ ios \<and>
          set ios \<subseteq> {Ping, Get (''product:'' @ str_int product_id), DbRead product_id} \<union>
                    {Set (''product:'' @ str_int product_id) (dumps r) 60 |r.
                       PRODUCTS_DB s product_id = Some r}) \<and>
   (\<forall>k. entries (snd (get_product dumps loads f product_id s)) k \<noteq> entries s k \<longrightarrow>
        k = ''product:'' @ str_int product_id \<and>
        (\<exists>r. PRODUCTS_DB s product_id = Some r \<and>
             entries (snd (get_product dumps loads f product_id s)) k = Some (dumps r, 60))) \<and>
   (\<exists>ios. trace (invalidate_cache f product_id s) = trace s @ ios \<and>
          set ios \<subseteq> {Ping, Delete (''product:'' @ str_int product_id)})"
proof -
  have k: "''product:'' @ str_int product_id = product_cache_key product_id"
    by (simp add: product_cache_key_def)
  show ?thesis
    unfolding k
  proof (intro conjI allI impI)
    show "product_cache_key product_id = product_cache_key product_id" ..
    show "int_of_str (str_int product_id) = product_id"
      by (rule int_of_str_str_int)
    show "\<exists>ios. trace (snd (get_product dumps loads f product_id s)) = trace s @ ios \<and>
          set ios \<subseteq> {Ping, Get (product_cache_key product_id), DbRead product_id} \<union>
                    {Set (product_cache_key product_id) (dumps r) 60 |r.
                       PRODUCTS_DB s product_id = Some r}"
      by (rule get_product_trace)
    show "\<exists>ios. trace (invalidate_cache f product_id s) = trace s @ ios \<and>
          set ios \<subseteq> {Ping, Delete (product_cache_key product_id)}"
      by (rule invalidate_cache_trace)
  next
    fix k'
    assume "entries (snd (get_product dumps loads f product_id s)) k' \<noteq> entries s k'"
    then have *: "k' = product_cache_key product_id \<and>
      (\<exists>r. PRODUCTS_DB s product_id = Some r \<and>
        entries (snd (get_product dumps loads f product_id s)) k' = Some (dumps r, 60))"
      by (rule get_product_writes)
    from * show "k' = product_cache_key product_id" ..
    from * show "\<exists>r. PRODUCTS_DB s product_id = Some r \<and>
        entries (snd (get_product dumps loads f product_id s)) k' = Some (dumps r, 60)" ..
  qed
qed

theorem cache_key_and_ttl_witness:
  "str_int 1 = ''1'' \<and>
   product_cache_key 1 = ''product:1'' \<and>
   trace (snd (get_product row_dumps row_loads no_faults 1 initial_state)) =
     [Ping, Get ''product:1'', DbRead 1, Set ''product:1'' ''1,1000,Laptop'' 60] \<and>
   entries (snd (get_product row_dumps row_loads no_faults 1 initial_state)) ''product:1'' \<noteq>
     entries initial_state ''product:1'' \<and>
   entries (snd (get_product row_dumps row_loads no_faults 1 initial_state)) ''product:1'' =
     Some (row_dumps \<lparr>id_field = 1, name = ''Laptop'', price = 1000\<rparr>, 60) \<and>
   trace (invalidate_cache no_faults 1 warm_state) = trace warm_state @ [Ping, Delete ''product:1'']"
proof -
  have s1: "str_int 1 = ''1''"
    by code_simp
  have db: "PRODUCTS_DB initial_state 1 = Some \<lparr>id_field = 1, name = ''Laptop'', price = 1000\<rparr>"
    by code_simp
  have t: "trace (snd (get_product row_dumps row_loads no_faults 1 initial_state)) =
     [Ping, Get ''product:1'', DbRead 1, Set ''product:1'' ''1,1000,Laptop'' 60]"
    by code_simp
  have ne: "entries (snd (get_product row_dumps row_loads no_faults 1 initial_state)) ''product:1'' \<noteq>
     entries initial_state ''product:1''"
    by code_simp
  have i: "trace (invalidate_cache no_faults 1 warm_state) = trace warm_state @ [Ping, Delete ''product:1'']"
    by code_simp
  note c = cache_key_and_ttl [of 1 row_dumps row_loads no_faults initial_state]
  from c have key: "product_cache_key 1 = ''product:'' @ str_int 1" ..
  then have key': "product_cache_key 1 = ''product:1''"
    by (simp add: s1)
  note w = c [THEN conjunct2, THEN conjunct2, THEN conjunct2, THEN conjunct1, rule_format, OF ne]
  then obtain r where "PRODUCTS_DB initial_state 1 = Some r"
    and "entries (snd (get_product row_dumps row_loads no_faults 1 initial_state)) ''product:1'' =
           Some (row_dumps r, 60)"
    by blast
  with db
  have e: "entries (snd (get_product row_dumps row_loads no_faults 1 initial_state)) ''product:1'' =
     Some (row_dumps \<lparr>id_field = 1, name = ''Laptop'', price = 1000\<rparr>, 60)"
    by simp
  from s1 key' t ne e i show ?thesis
    by (intro conjI)
qed

end
